theory Spec2Isabelle
  imports Main "HOL-Library.Char_ord" "HOL-Library.List_Lexorder"
begin

section \<open>Exceptions, events and the world\<close>

text \<open>
  The program is \<^verbatim>\<open>cvrp/ui/main.py\<close>: a PyQt5 front end whose handlers call
  collaborators (model building, solving, report rendering, the file system, the web
  browser) and Qt widgets. The handlers themselves raise nothing; every exception comes
  out of a collaborator. An exception is either the domain exception
  \<^verbatim>\<open>CVRPException\<close>, which carries a message, or any other class. Of the other
  classes the program only tells apart \<^verbatim>\<open>EnvironmentError\<close> (caught in
  \<^verbatim>\<open>launch_ui\<close>) and \<^verbatim>\<open>SystemExit\<close> (raised by \<^verbatim>\<open>sys.exit\<close>).
\<close>

datatype fault =
    EnvironmentError string
  | SystemExit int
  | OtherError string

datatype exn =
    CVRPException string
  | Fault fault

datatype icon = Critical

datatype modality = WindowModal

text \<open>
  \<^verbatim>\<open>ModelSolveRunnable.__init__\<close> stores the network and the progress bar and sets
  \<^verbatim>\<open>self.progress = 0\<close>. A job has one progress bar (the dialog handed to the
  constructor); the calls on it are the events \<open>InvokeSetValue\<close>,
  \<open>InvokeSetLabelText\<close> and \<open>BarClose\<close> below.
\<close>

record 'n ModelSolveRunnable =
  network :: 'n
  progress :: int

definition ModelSolveRunnable_init :: "'n \<Rightarrow> 'n ModelSolveRunnable" where
  "ModelSolveRunnable_init n = \<lparr>network = n, progress = 0\<rparr>"

text \<open>Every call that leaves the handlers is logged, in order, as an event.\<close>

datatype 'n event =
    InvokeSetValue int
  | InvokeSetLabelText string
  | CallCVRPModel
  | CallSolveModel
  | CallGenerateReport
  | CallOpen string string
  | CallWrite string string
  | CallClose string
  | WebbrowserOpen string
  | Msleep nat
  | BarClose
  | NewMessageBox
  | MsgSetIcon icon
  | MsgSetWindowTitle string
  | MsgSetText string
  | MsgExec
  | SolveSetDisabled bool
  | CallCheckSolvability
  | NewProgressDialog string string int int
  | DialogSetWindowTitle string
  | DialogSetWindowModality modality
  | DialogShow
  | ThreadPoolStart "'n ModelSolveRunnable"
  | NewQApplication
  | NewMainWindow 'n
  | CallGetSolvers
  | MainShow
  | AppExec

text \<open>
  The world a handler runs in: the calls made so far (oldest first), the text files on
  disk, the text that open files have buffered and not yet written, and whether the
  "Solve Problem" button is disabled.
\<close>

record 'n world =
  trace :: "'n event list"
  files :: "string \<rightharpoonup> string"
  buffers :: "string \<rightharpoonup> string"
  solve_disabled :: bool

text \<open>
  A statement takes the world and gives back the world it leaves, with either the value
  it returns (\<open>Inr\<close>) or the exception it raises (\<open>Inl\<close>).
\<close>

type_synonym ('n, 'a) io = "'n world \<Rightarrow> (exn + 'a) \<times> 'n world"

definition io_return :: "'a \<Rightarrow> ('n, 'a) io" where
  "io_return x = (\<lambda>w. (Inr x, w))"

definition io_raise :: "exn \<Rightarrow> ('n, 'a) io" where
  "io_raise e = (\<lambda>w. (Inl e, w))"

definition io_bind :: "('n, 'a) io \<Rightarrow> ('a \<Rightarrow> ('n, 'b) io) \<Rightarrow> ('n, 'b) io" where
  "io_bind m f = (\<lambda>w. case m w of (Inl e, w') \<Rightarrow> (Inl e, w') | (Inr x, w') \<Rightarrow> f x w')"

definition emit :: "'n event \<Rightarrow> ('n, unit) io" where
  "emit ev = (\<lambda>w. (Inr (), w\<lparr>trace := trace w @ [ev]\<rparr>))"

text \<open>A call of a collaborator: the call is logged, then it returns or raises.\<close>

definition call :: "'n event \<Rightarrow> exn + 'a \<Rightarrow> ('n, 'a) io" where
  "call ev outcome =
     io_bind (emit ev) (\<lambda>_. case outcome of Inl e \<Rightarrow> io_raise e | Inr x \<Rightarrow> io_return x)"

text \<open>
  \<^verbatim>\<open>try: body finally: fin\<close>: \<open>fin\<close> runs whatever \<open>body\<close> did; an exception of
  \<open>fin\<close> replaces the pending outcome.
\<close>

definition try_finally :: "('n, 'a) io \<Rightarrow> ('n, unit) io \<Rightarrow> ('n, 'a) io" where
  "try_finally body fin =
     (\<lambda>w. case body w of (r, w1) \<Rightarrow>
        (case fin w1 of (Inl e, w2) \<Rightarrow> (Inl e, w2) | (Inr _, w2) \<Rightarrow> (r, w2)))"

text \<open>
  \<^verbatim>\<open>try: body except CVRPException as exc: handler(exc.message)\<close>: only the domain
  exception is caught; anything else stays pending.
\<close>

definition try_except_CVRPException ::
  "('n, 'a) io \<Rightarrow> (string \<Rightarrow> ('n, 'a) io) \<Rightarrow> ('n, 'a) io" where
  "try_except_CVRPException body handler =
     (\<lambda>w. case body w of
        (Inl (CVRPException message), w1) \<Rightarrow> handler message w1
      | (r, w1) \<Rightarrow> (r, w1))"

text \<open>\<^verbatim>\<open>try: body except EnvironmentError: handler\<close>, as in \<^verbatim>\<open>launch_ui\<close>.\<close>

definition try_except_EnvironmentError ::
  "('n, 'a) io \<Rightarrow> ('n, 'a) io \<Rightarrow> ('n, 'a) io" where
  "try_except_EnvironmentError body handler =
     (\<lambda>w. case body w of
        (Inl (Fault (EnvironmentError _)), w1) \<Rightarrow> handler w1
      | (r, w1) \<Rightarrow> (r, w1))"

text \<open>
  The error surface. The source builds the same critical message box in three places:
  \<^verbatim>\<open>msg = QMessageBox(); msg.setIcon(QMessageBox.Critical);
  msg.setWindowTitle("Error"); msg.setText(text); msg.exec_()\<close>.
\<close>

definition message_box_events :: "string \<Rightarrow> 'n event list" where
  "message_box_events text =
     [NewMessageBox, MsgSetIcon Critical, MsgSetWindowTitle ''Error'', MsgSetText text, MsgExec]"

definition message_box :: "string \<Rightarrow> ('n, unit) io" where
  "message_box text =
     io_bind (emit NewMessageBox) (\<lambda>_.
     io_bind (emit (MsgSetIcon Critical)) (\<lambda>_.
     io_bind (emit (MsgSetWindowTitle ''Error'')) (\<lambda>_.
     io_bind (emit (MsgSetText text)) (\<lambda>_.
     emit MsgExec))))"

section \<open>The timestamp of the report\<close>

record datetime =
  year :: nat
  month :: nat
  day :: nat
  hour :: nat
  minute :: nat
  second :: nat

text \<open>
  The values a Python \<^verbatim>\<open>datetime\<close> can hold, from the year 1000 on: the clock of
  a running program shows no earlier year, and some platforms print earlier years with
  fewer than four digits.
\<close>

definition valid_datetime :: "datetime \<Rightarrow> bool" where
  "valid_datetime t \<longleftrightarrow>
     1000 \<le> year t \<and> year t \<le> 9999 \<and> 1 \<le> month t \<and> month t \<le> 12 \<and>
     1 \<le> day t \<and> day t \<le> 31 \<and> hour t < 24 \<and> minute t < 60 \<and> second t < 60"

definition digit :: "nat \<Rightarrow> char" where
  "digit n = char_of (48 + n mod 10)"

definition pad2 :: "nat \<Rightarrow> string" where
  "pad2 n = [digit (n div 10), digit n]"

definition pad4 :: "nat \<Rightarrow> string" where
  "pad4 n = [digit (n div 1000), digit (n div 100), digit (n div 10), digit n]"

text \<open>
  The directives of \<^verbatim>\<open>strftime\<close> that the program uses: \<^verbatim>\<open>%Y\<close> is the year
  with century as a four-digit decimal number, the others are zero-padded to two digits.
  Any other directive is left as it is written.
\<close>

definition directive :: "datetime \<Rightarrow> char \<Rightarrow> string" where
  "directive t c =
     (if c = CHR ''Y'' then pad4 (year t)
      else if c = CHR ''m'' then pad2 (month t)
      else if c = CHR ''d'' then pad2 (day t)
      else if c = CHR ''H'' then pad2 (hour t)
      else if c = CHR ''M'' then pad2 (minute t)
      else if c = CHR ''S'' then pad2 (second t)
      else [CHR ''%'', c])"

fun strftime :: "datetime \<Rightarrow> string \<Rightarrow> string" where
  "strftime t [] = []"
| "strftime t [c] = [c]"
| "strftime t (c # c' # cs) =
     (if c = CHR ''%'' then directive t c' @ strftime t cs else c # strftime t (c' # cs))"

text \<open>Chronological order of timestamps: field by field, the year first.\<close>

definition earlier :: "datetime \<Rightarrow> datetime \<Rightarrow> bool" where
  "earlier a b \<longleftrightarrow>
     year a < year b \<or> (year a = year b \<and>
    (month a < month b \<or> (month a = month b \<and>
    (day a < day b \<or> (day a = day b \<and>
    (hour a < hour b \<or> (hour a = hour b \<and>
    (minute a < minute b \<or> (minute a = minute b \<and>
     second a < second b)))))))))"

section \<open>The collaborators\<close>

text \<open>
  What the handlers import and call but do not define: the three pipeline stages
  (\<^verbatim>\<open>CVRPModel(network)\<close>, \<^verbatim>\<open>solve_model\<close>, \<^verbatim>\<open>generate_report\<close>), which
  return or raise any exception; the clock and \<^verbatim>\<open>os.path\<close>; the file system and the
  web browser, which return or raise an exception that is not a
  \<^verbatim>\<open>CVRPException\<close>; \<^verbatim>\<open>Network.check_solvability\<close>, \<^verbatim>\<open>get_solvers\<close>, the
  default \<^verbatim>\<open>Network()\<close> and the exit code of the Qt event loop. Calls into Qt widgets
  are logged and return.
\<close>

record ('n, 'm, 'r) env =
  CVRPModel :: "'n \<Rightarrow> exn + 'm"
  solve_model :: "'m \<Rightarrow> exn + 'r"
  generate_report :: "'m \<Rightarrow> 'r \<Rightarrow> exn + string"
  now :: datetime
  expanduser :: "string \<Rightarrow> string"
  path_join :: "string \<Rightarrow> string \<Rightarrow> string"
  open_error :: "string \<Rightarrow> fault option"
  write_error :: "string \<Rightarrow> string \<Rightarrow> fault option"
  close_error :: "string \<Rightarrow> fault option"
  webbrowser_error :: "string \<Rightarrow> fault option"
  check_solvability :: "'n \<Rightarrow> exn + unit"
  get_solvers :: "exn + unit"
  new_Network :: 'n
  app_exec :: int

definition fails :: "fault option \<Rightarrow> exn + unit" where
  "fails r = (case r of Some f \<Rightarrow> Inl (Fault f) | None \<Rightarrow> Inr ())"

text \<open>
  \<^verbatim>\<open>open(path, "w")\<close> creates the file or truncates it to the empty text, and
  gives it an empty buffer. \<^verbatim>\<open>file.write(s)\<close> appends to the buffer.
  \<^verbatim>\<open>file.close()\<close> writes the buffer behind what the file holds; when it fails the
  buffered text is lost. The handle of an open file is its path.
\<close>

definition open_w :: "('n, 'm, 'r) env \<Rightarrow> string \<Rightarrow> ('n, string) io" where
  "open_w env path =
     io_bind (call (CallOpen path ''w'') (fails (open_error env path))) (\<lambda>_.
     (\<lambda>w. (Inr path, w\<lparr>files := (files w)(path \<mapsto> []),
                        buffers := (buffers w)(path \<mapsto> [])\<rparr>)))"

definition file_write :: "('n, 'm, 'r) env \<Rightarrow> string \<Rightarrow> string \<Rightarrow> ('n, unit) io" where
  "file_write env file s =
     io_bind (call (CallWrite file s) (fails (write_error env file s))) (\<lambda>_.
     (\<lambda>w. (Inr (), w\<lparr>buffers := (buffers w)(file \<mapsto>
        (case buffers w file of None \<Rightarrow> s | Some old \<Rightarrow> old @ s))\<rparr>)))"

definition flushed :: "'n world \<Rightarrow> string \<Rightarrow> string" where
  "flushed w file =
     (case files w file of None \<Rightarrow> [] | Some old \<Rightarrow> old) @
     (case buffers w file of None \<Rightarrow> [] | Some text \<Rightarrow> text)"

definition file_close :: "('n, 'm, 'r) env \<Rightarrow> string \<Rightarrow> ('n, unit) io" where
  "file_close env file =
     io_bind (emit (CallClose file)) (\<lambda>_.
     (\<lambda>w. (fails (close_error env file),
           w\<lparr>files := (if close_error env file = None
                        then (files w)(file \<mapsto> flushed w file) else files w),
             buffers := (buffers w)(file := None)\<rparr>)))"

text \<open>
  \<^verbatim>\<open>with open(path, "w") as file: body\<close>: once the file is open it is closed on
  every way out of the body.
\<close>

definition with_open_w ::
  "('n, 'm, 'r) env \<Rightarrow> string \<Rightarrow> (string \<Rightarrow> ('n, 'a) io) \<Rightarrow> ('n, 'a) io" where
  "with_open_w env path body =
     io_bind (open_w env path) (\<lambda>file. try_finally (body file) (file_close env file))"

section \<open>ModelSolveRunnable\<close>

definition set_bar_status :: "int \<Rightarrow> string \<Rightarrow> ('n, unit) io" where
  "set_bar_status v label =
     io_bind (emit (InvokeSetValue v)) (\<lambda>_. emit (InvokeSetLabelText label))"

definition report_file_name :: "datetime \<Rightarrow> string" where
  "report_file_name t = ''report-'' @ strftime t ''%Y-%m-%d_%H.%M.%S'' @ ''.html''"

definition abs_file_path :: "('n, 'm, 'r) env \<Rightarrow> string" where
  "abs_file_path env = path_join env (expanduser env ''~'') (report_file_name (now env))"

text \<open>The body of the \<^verbatim>\<open>try\<close> statement of \<^verbatim>\<open>run\<close>.\<close>

definition run_body :: "('n, 'm, 'r) env \<Rightarrow> 'n ModelSolveRunnable \<Rightarrow> ('n, unit) io" where
  "run_body env self =
     io_bind (set_bar_status (progress self) ''Building model...'') (\<lambda>_.
     io_bind (call CallCVRPModel (CVRPModel env (network self))) (\<lambda>model.
     io_bind (set_bar_status 1 ''Searching for a solution...'') (\<lambda>_.
     io_bind (call CallSolveModel (solve_model env model)) (\<lambda>result.
     io_bind (set_bar_status 2 ''Generating report...'') (\<lambda>_.
     io_bind (call CallGenerateReport (generate_report env model result)) (\<lambda>report.
     io_bind (with_open_w env (abs_file_path env) (\<lambda>file. file_write env file report)) (\<lambda>_.
     io_bind (call (WebbrowserOpen (abs_file_path env))
                (fails (webbrowser_error env (abs_file_path env)))) (\<lambda>_.
     emit (Msleep 500)))))))))"

definition run :: "('n, 'm, 'r) env \<Rightarrow> 'n ModelSolveRunnable \<Rightarrow> ('n, unit) io" where
  "run env self =
     try_finally
       (try_except_CVRPException (run_body env self) (\<lambda>message. message_box message))
       (emit BarClose)"

text \<open>
  The pipeline of the job on the network \<open>n\<close> raises \<open>e\<close>: the first of the three
  stages that does not return raises it.
\<close>

definition stage_raises :: "('n, 'm, 'r) env \<Rightarrow> 'n \<Rightarrow> exn \<Rightarrow> bool" where
  "stage_raises env n e =
     (case CVRPModel env n of
        Inl e1 \<Rightarrow> e1 = e
      | Inr model \<Rightarrow>
          (case solve_model env model of
             Inl e2 \<Rightarrow> e2 = e
           | Inr result \<Rightarrow> generate_report env model result = Inl e))"

text \<open>The events a statement adds when it is started in the world \<open>w\<close>.\<close>

definition events_of :: "('n, 'a) io \<Rightarrow> 'n world \<Rightarrow> 'n event list" where
  "events_of m w = drop (length (trace w)) (trace (snd (m w)))"

text \<open>
  A statement that only extends the trace, and only by events of \<open>S\<close>, and leaves the
  solve button as it is.
\<close>

definition only_emits :: "'n event set \<Rightarrow> ('n, 'a) io \<Rightarrow> bool" where
  "only_emits S m \<longleftrightarrow>
     (\<forall>w. \<exists>t. trace (snd (m w)) = trace w @ t \<and> set t \<subseteq> S \<and>
        solve_disabled (snd (m w)) = solve_disabled w)"

section \<open>MainWidget.on\_click\_solve\<close>

text \<open>
  \<^verbatim>\<open>self.solve.setDisabled(b)\<close> on the "Solve Problem" button. Nothing else in the
  program changes that button.
\<close>

definition solve_setDisabled :: "bool \<Rightarrow> ('n, unit) io" where
  "solve_setDisabled b =
     (\<lambda>w. (Inr (), w\<lparr>trace := trace w @ [SolveSetDisabled b], solve_disabled := b\<rparr>))"

text \<open>
  The body of the \<^verbatim>\<open>try\<close> statement of \<^verbatim>\<open>on_click_solve\<close>.
  \<^verbatim>\<open>QThreadPool.globalInstance().start(runnable)\<close> hands the runnable to the pool and
  returns; the handler does not run the job.
\<close>

definition on_click_solve_body :: "('n, 'm, 'r) env \<Rightarrow> 'n \<Rightarrow> ('n, unit) io" where
  "on_click_solve_body env n =
     io_bind (call CallCheckSolvability (check_solvability env n)) (\<lambda>_.
     io_bind (emit (NewProgressDialog [] ''Cancel'' 0 3)) (\<lambda>_.
     io_bind (emit (DialogSetWindowTitle ''Solving Problem'')) (\<lambda>_.
     io_bind (emit (DialogSetWindowModality WindowModal)) (\<lambda>_.
     io_bind (emit DialogShow) (\<lambda>_.
     emit (ThreadPoolStart (ModelSolveRunnable_init n)))))))"

definition on_click_solve :: "('n, 'm, 'r) env \<Rightarrow> 'n \<Rightarrow> ('n, unit) io" where
  "on_click_solve env n =
     io_bind (solve_setDisabled True) (\<lambda>_.
     io_bind (try_except_CVRPException (on_click_solve_body env n)
                (\<lambda>message. message_box message)) (\<lambda>_.
     solve_setDisabled False))"

text \<open>
  A click on the button. \<^verbatim>\<open>on_click_solve\<close> is connected to the button's
  \<^verbatim>\<open>clicked\<close> signal (\<^verbatim>\<open>self.solve.clicked.connect(self.on_click_solve)\<close>) and
  to nothing else, and Qt sends that signal only while the button is enabled: a click on
  the disabled button does nothing.
\<close>

definition click_solve :: "('n, 'm, 'r) env \<Rightarrow> 'n \<Rightarrow> ('n, unit) io" where
  "click_solve env n = (\<lambda>w. if solve_disabled w then (Inr (), w) else on_click_solve env n w)"

text \<open>
  What can happen in the session once the window is up: the user clicks the button (the
  network being \<open>n\<close> at that time), or the thread pool runs a job. Each time the
  collaborators may behave differently, so every action carries its environment. The
  other handlers of the program belong to the list tabs and have no access to the
  button.
\<close>

datatype ('n, 'm, 'r) action =
    ClickSolve "('n, 'm, 'r) env" 'n
  | RunJob "('n, 'm, 'r) env" "'n ModelSolveRunnable"

fun step :: "('n, 'm, 'r) action \<Rightarrow> ('n, unit) io" where
  "step (ClickSolve env n) = click_solve env n"
| "step (RunJob env self) = run env self"

text \<open>
  The session runs its actions in turn (\<^verbatim>\<open>launch_ui\<close> is not one of them: it
  runs once, before the session, and builds the window). When an exception leaves a
  handler the host
  either ends the program there (\<open>abort\<close>, what PyQt5 does unless an exception hook is
  installed) or reports it and carries on.
\<close>

fun session :: "bool \<Rightarrow> ('n, 'm, 'r) action list \<Rightarrow> 'n world \<Rightarrow> 'n world" where
  "session abort [] w = w"
| "session abort (a # as) w =
     (case step a w of (r, w') \<Rightarrow> if abort \<and> isl r then w' else session abort as w')"

section \<open>launch\_ui\<close>

text \<open>
  The \<^verbatim>\<open>return\<close> inside the \<^verbatim>\<open>except\<close> branch is the value \<open>False\<close> of the
  \<^verbatim>\<open>try\<close> statement; \<^verbatim>\<open>sys.exit(code)\<close> raises \<^verbatim>\<open>SystemExit(code)\<close>.
\<close>

definition launch_ui :: "('n, 'm, 'r) env \<Rightarrow> 'n option \<Rightarrow> ('n, unit) io" where
  "launch_ui env network_arg =
     (let network = (case network_arg of None \<Rightarrow> new_Network env | Some n \<Rightarrow> n) in
      io_bind (emit NewQApplication) (\<lambda>_.
      io_bind (emit (NewMainWindow network)) (\<lambda>_.
      io_bind (try_except_EnvironmentError
                 (io_bind (call CallGetSolvers (get_solvers env)) (\<lambda>_. io_return True))
                 (io_bind (message_box ''No available solvers'') (\<lambda>_. io_return False)))
        (\<lambda>proceed.
           if proceed then
             io_bind (emit MainShow) (\<lambda>_.
             io_bind (emit AppExec) (\<lambda>_.
             io_raise (Fault (SystemExit (app_exec env)))))
           else io_return ()))))"

section \<open>Network and the places tab\<close>

text \<open>
  Modelled from the spec: the class \<^verbatim>\<open>Network\<close> of \<^verbatim>\<open>cvrp.data\<close> is imported
  by the program but not part of it. The spec gives it one depot, an ordered collection
  of clients that the depot is not a member of, and an ordered collection of vehicles;
  \<^verbatim>\<open>all_places\<close> is the depot followed by the clients; \<^verbatim>\<open>add_client\<close> appends;
  \<^verbatim>\<open>remove_client\<close> removes the first match and is a no-op if there is none.
  Equality of places is identity, which is equality of \<open>'p\<close> here.
\<close>

record ('p, 'v) Network =
  depot :: 'p
  clients :: "'p list"
  vehicles :: "'v list"

definition all_places :: "('p, 'v) Network \<Rightarrow> 'p list" where
  "all_places n = depot n # clients n"

definition add_client :: "('p, 'v) Network \<Rightarrow> 'p \<Rightarrow> ('p, 'v) Network" where
  "add_client n p = n\<lparr>clients := clients n @ [p]\<rparr>"

definition remove_client :: "('p, 'v) Network \<Rightarrow> 'p \<Rightarrow> ('p, 'v) Network" where
  "remove_client n p = n\<lparr>clients := remove1 p (clients n)\<rparr>"

text \<open>The invariant of the spec: the depot is distinct from every client.\<close>

definition depot_not_client :: "('p, 'v) Network \<Rightarrow> bool" where
  "depot_not_client n \<longleftrightarrow> depot n \<notin> set (clients n)"

record 'p PlaceListItem =
  place :: 'p
  removable :: bool

definition PlaceListItem_init :: "'p \<Rightarrow> 'p PlaceListItem" where
  "PlaceListItem_init p = \<lparr>place = p, removable = True\<rparr>"

text \<open>
  The state of a \<^verbatim>\<open>PlacesTabWidget\<close>: its network, the items of its list and
  whether the Edit and Remove buttons are disabled.
\<close>

record ('p, 'v) PlacesTabWidget =
  tab_network :: "('p, 'v) Network"
  items_list :: "'p PlaceListItem list"
  ab_edit_disabled :: bool
  ab_remove_disabled :: bool

definition is_selected_item_valid :: "'a option \<Rightarrow> bool" where
  "is_selected_item_valid item = (item \<noteq> None)"

text \<open>\<^verbatim>\<open>ListTabWidget.update_action_buttons\<close>, which the places tab calls first.\<close>

definition ListTabWidget_update_action_buttons ::
  "('p, 'v) PlacesTabWidget \<Rightarrow> 'p PlaceListItem option \<Rightarrow> ('p, 'v) PlacesTabWidget" where
  "ListTabWidget_update_action_buttons self item =
     (let is_item_invalid = (is_selected_item_valid item = False) in
      self\<lparr>ab_remove_disabled := is_item_invalid, ab_edit_disabled := is_item_invalid\<rparr>)"

definition update_action_buttons ::
  "('p, 'v) PlacesTabWidget \<Rightarrow> 'p PlaceListItem option \<Rightarrow> ('p, 'v) PlacesTabWidget" where
  "update_action_buttons self item =
     (let self1 = ListTabWidget_update_action_buttons self item in
      if is_selected_item_valid item then
        (let is_depot_selected = (place (the item) = depot (tab_network self1)) in
         self1\<lparr>ab_remove_disabled := is_depot_selected\<rparr>)
      else self1)"

definition update_places :: "('p, 'v) PlacesTabWidget \<Rightarrow> ('p, 'v) PlacesTabWidget" where
  "update_places self =
     self\<lparr>items_list := map PlaceListItem_init (all_places (tab_network self))\<rparr>"

definition on_editor_close :: "('p, 'v) PlacesTabWidget \<Rightarrow> ('p, 'v) PlacesTabWidget" where
  "on_editor_close self = update_action_buttons (update_places self) None"

definition on_item_remove ::
  "('p, 'v) PlacesTabWidget \<Rightarrow> 'p PlaceListItem \<Rightarrow> ('p, 'v) PlacesTabWidget" where
  "on_item_remove self item =
     on_editor_close (self\<lparr>tab_network := remove_client (tab_network self) (place item)\<rparr>)"

section \<open>Concrete inputs\<close>

text \<open>
  An environment in which every collaborator succeeds, on 3 November 2026 at 10:20:30,
  with POSIX paths; and the empty world.
\<close>

definition env0 :: "(unit, unit, unit) env" where
  "env0 = \<lparr>CVRPModel = (\<lambda>_. Inr ()), solve_model = (\<lambda>_. Inr ()),
     generate_report = (\<lambda>_ _. Inr ''<html></html>''),
     now = \<lparr>year = 2026, month = 11, day = 3, hour = 10, minute = 20, second = 30\<rparr>,
     expanduser = (\<lambda>_. ''/home/user''),
     path_join = (\<lambda>a b. a @ ''/'' @ b),
     open_error = (\<lambda>_. None), write_error = (\<lambda>_ _. None), close_error = (\<lambda>_. None),
     webbrowser_error = (\<lambda>_. None),
     check_solvability = (\<lambda>_. Inr ()), get_solvers = Inr (),
     new_Network = (), app_exec = 0\<rparr>"

definition w0 :: "unit world" where
  "w0 = \<lparr>trace = [], files = Map.empty, buffers = Map.empty, solve_disabled = False\<rparr>"

text \<open>The same environment with a report renderer that raises a \<^verbatim>\<open>RuntimeError\<close>.\<close>

definition env_render_fault :: "(unit, unit, unit) env" where
  "env_render_fault =
     env0\<lparr>generate_report := (\<lambda>_ _. Inl (Fault (OtherError ''RuntimeError'')))\<rparr>"


text \<open>A model builder that rejects the network with a domain exception.\<close>

definition env_build_fails :: "(unit, unit, unit) env" where
  "env_build_fails = env0\<lparr>CVRPModel := (\<lambda>_. Inl (CVRPException ''No vehicles''))\<rparr>"

text \<open>
  A network that is not solvable, one whose check raises an exception of another class,
  and a machine without solver backends.
\<close>

definition env_unsolvable :: "(unit, unit, unit) env" where
  "env_unsolvable = env0\<lparr>check_solvability := (\<lambda>_. Inl (CVRPException ''No clients''))\<rparr>"

definition env_check_fault :: "(unit, unit, unit) env" where
  "env_check_fault =
     env0\<lparr>check_solvability := (\<lambda>_. Inl (Fault (OtherError ''AttributeError'')))\<rparr>"

definition env_no_solvers :: "(unit, unit, unit) env" where
  "env_no_solvers = env0\<lparr>get_solvers := Inl (Fault (EnvironmentError ''no solver''))\<rparr>"

text \<open>A network with two clients, and a places tab showing it.\<close>

definition net0 :: "(nat, unit) Network" where
  "net0 = \<lparr>depot = 0, clients = [1, 2], vehicles = []\<rparr>"

definition tab0 :: "(nat, unit) PlacesTabWidget" where
  "tab0 = \<lparr>tab_network = net0, items_list = map PlaceListItem_init (all_places net0),
     ab_edit_disabled = True, ab_remove_disabled = True\<rparr>"

section \<open>How statements run\<close>

lemma only_emits_return: "only_emits S (io_return x)"
  by (simp add: only_emits_def io_return_def)

lemma only_emits_raise: "only_emits S (io_raise e)"
  by (simp add: only_emits_def io_raise_def)

lemma only_emits_emit: "ev \<in> S \<Longrightarrow> only_emits S (emit ev)"
  by (simp add: only_emits_def emit_def)

lemma only_emits_update:
  assumes "\<And>w. trace (g w) = trace w" and "\<And>w. solve_disabled (g w) = solve_disabled w"
  shows "only_emits S (\<lambda>w. (r w, g w))"
  using assms by (simp add: only_emits_def)

lemma only_emits_mono: "only_emits S m \<Longrightarrow> S \<subseteq> T \<Longrightarrow> only_emits T m"
  unfolding only_emits_def by (meson subset_trans)

lemma only_emits_run:
  assumes "only_emits S m" and "m w = (r, w1)"
  obtains t where "trace w1 = trace w @ t" and "set t \<subseteq> S"
    and "solve_disabled w1 = solve_disabled w"
  using assms unfolding only_emits_def by (metis snd_conv)

lemma only_emits_bind:
  assumes "only_emits S m" and "\<And>x. only_emits S (f x)"
  shows "only_emits S (io_bind m f)"
  unfolding only_emits_def
proof
  fix w
  obtain r w1 where m: "m w = (r, w1)" by (cases "m w")
  from assms(1) m obtain t1 where t1: "trace w1 = trace w @ t1" "set t1 \<subseteq> S"
    "solve_disabled w1 = solve_disabled w"
    by (rule only_emits_run)
  show "\<exists>t. trace (snd (io_bind m f w)) = trace w @ t \<and> set t \<subseteq> S \<and>
          solve_disabled (snd (io_bind m f w)) = solve_disabled w"
  proof (cases r)
    case (Inl e)
    then show ?thesis using m t1 by (auto simp: io_bind_def)
  next
    case (Inr x)
    obtain r2 w2 where f: "f x w1 = (r2, w2)" by (cases "f x w1")
    from assms(2) [of x] f obtain t2 where "trace w2 = trace w1 @ t2" "set t2 \<subseteq> S"
      "solve_disabled w2 = solve_disabled w1"
      by (rule only_emits_run)
    then show ?thesis using m f t1 Inr by (auto simp: io_bind_def)
  qed
qed

lemma only_emits_call: "ev \<in> S \<Longrightarrow> only_emits S (call ev outcome)"
  unfolding call_def
  by (intro only_emits_bind only_emits_emit)
    (auto split: sum.splits intro: only_emits_return only_emits_raise)

lemma only_emits_try_finally:
  assumes "only_emits S body" and "only_emits S fin"
  shows "only_emits S (try_finally body fin)"
  unfolding only_emits_def
proof
  fix w
  obtain r w1 where m: "body w = (r, w1)" by (cases "body w")
  obtain r2 w2 where f: "fin w1 = (r2, w2)" by (cases "fin w1")
  from assms(1) m obtain t1 where t1: "trace w1 = trace w @ t1" "set t1 \<subseteq> S"
    "solve_disabled w1 = solve_disabled w"
    by (rule only_emits_run)
  from assms(2) f obtain t2 where t2: "trace w2 = trace w1 @ t2" "set t2 \<subseteq> S"
    "solve_disabled w2 = solve_disabled w1"
    by (rule only_emits_run)
  show "\<exists>t. trace (snd (try_finally body fin w)) = trace w @ t \<and> set t \<subseteq> S \<and>
          solve_disabled (snd (try_finally body fin w)) = solve_disabled w"
    using m f t1 t2 by (cases r2) (auto simp: try_finally_def)
qed

lemma only_emits_try_except:
  assumes "only_emits S body" and "\<And>x. only_emits S (handler x)"
  shows "only_emits S (try_except_CVRPException body handler)"
  unfolding only_emits_def
proof
  fix w
  obtain r w1 where m: "body w = (r, w1)" by (cases "body w")
  from assms(1) m obtain t1 where t1: "trace w1 = trace w @ t1" "set t1 \<subseteq> S"
    "solve_disabled w1 = solve_disabled w"
    by (rule only_emits_run)
  show "\<exists>t. trace (snd (try_except_CVRPException body handler w)) = trace w @ t \<and>
          set t \<subseteq> S \<and>
          solve_disabled (snd (try_except_CVRPException body handler w)) = solve_disabled w"
  proof (cases "\<exists>msg. r = Inl (CVRPException msg)")
    case True
    then obtain msg where r: "r = Inl (CVRPException msg)" by blast
    obtain r2 w2 where h: "handler msg w1 = (r2, w2)" by (cases "handler msg w1")
    from assms(2) [of msg] h obtain t2 where "trace w2 = trace w1 @ t2" "set t2 \<subseteq> S"
      "solve_disabled w2 = solve_disabled w1"
      by (rule only_emits_run)
    then show ?thesis using m h t1 r by (auto simp: try_except_CVRPException_def)
  next
    case False
    then have "try_except_CVRPException body handler w = (r, w1)"
      using m by (auto simp: try_except_CVRPException_def split: sum.splits exn.splits)
    then show ?thesis using t1 by auto
  qed
qed

text \<open>A job emits no call on the solve button, and before its cleanup none on the bar.\<close>

lemma only_emits_run_body:
  "only_emits (- insert BarClose (range SolveSetDisabled)) (run_body env self)"
  unfolding run_body_def set_bar_status_def with_open_w_def open_w_def file_write_def
    file_close_def
  by (intro only_emits_bind only_emits_emit only_emits_call only_emits_try_finally
      only_emits_update) auto

lemma only_emits_message_box:
  "only_emits (- insert BarClose (range SolveSetDisabled)) (message_box text)"
  unfolding message_box_def
  by (intro only_emits_bind only_emits_emit) auto

lemma only_emits_run_inner:
  "only_emits (- insert BarClose (range SolveSetDisabled))
     (try_except_CVRPException (run_body env self) (\<lambda>message. message_box message))"
  by (intro only_emits_try_except only_emits_run_body only_emits_message_box)

lemmas io_defs = io_return_def io_raise_def io_bind_def emit_def call_def try_finally_def
  try_except_CVRPException_def fails_def message_box_def

lemmas run_defs = run_def run_body_def set_bar_status_def with_open_w_def open_w_def
  file_write_def file_close_def ModelSolveRunnable_init_def

lemmas solve_defs = on_click_solve_def on_click_solve_body_def solve_setDisabled_def

text \<open>The concrete environment, field by field, and the path of its report.\<close>

lemma env0_fields:
  "CVRPModel env0 = (\<lambda>_. Inr ())" "solve_model env0 = (\<lambda>_. Inr ())"
  "generate_report env0 = (\<lambda>_ _. Inr ''<html></html>'')"
  "open_error env0 = (\<lambda>_. None)" "write_error env0 = (\<lambda>_ _. None)"
  "close_error env0 = (\<lambda>_. None)" "webbrowser_error env0 = (\<lambda>_. None)"
  "check_solvability env0 = (\<lambda>_. Inr ())" "get_solvers env0 = Inr ()"
  "new_Network env0 = ()" "app_exec env0 = 0"
  by (simp_all add: env0_def)

lemma abs_file_path_env0:
  "abs_file_path env0 = ''/home/user/report-2026-11-03_10.20.30.html''"
  by code_simp

section \<open>The cleanup of a job\<close>

text \<open>
  Claim C1. Whatever the collaborators do (every pipeline stage, the opening, writing and
  closing of the file and the web browser may return or raise, a domain exception or any
  other), \<open>run\<close> closes the progress bar exactly once, and that call is the last thing
  it does.
\<close>

theorem run_closes_bar_exactly_once:
  "count_list (events_of (run env self) w) BarClose = 1 \<and>
   last (events_of (run env self) w) = BarClose"
proof -
  let ?inner = "try_except_CVRPException (run_body env self) (\<lambda>message. message_box message)"
  have inner: "only_emits (- {BarClose}) ?inner"
    by (rule only_emits_mono [OF only_emits_run_inner]) auto
  obtain r w1 where i: "?inner w = (r, w1)" by (cases "?inner w")
  from inner i obtain t where t: "trace (snd (?inner w)) = trace w @ t" "set t \<subseteq> - {BarClose}"
    by (rule only_emits_run) (simp add: i)
  have "events_of (run env self) w = t @ [BarClose]"
    using t i by (simp add: events_of_def run_def try_finally_def emit_def)
  moreover have "count_list t BarClose = 0"
    using t(2) by (auto simp: count_list_0_iff)
  ultimately show ?thesis by simp
qed

section \<open>A job whose stages succeed\<close>




section \<open>A job whose build is rejected\<close>

text \<open>
  Claim C4. When \<^verbatim>\<open>CVRPModel(network)\<close> raises a \<^verbatim>\<open>CVRPException\<close>, the job
  reports progress 0 "Building model...", calls the build, shows one message box with the
  exception's message and closes the progress bar, and that is all: no later stage is
  called, no file is opened or changed, and \<open>run\<close> returns.
\<close>

theorem run_build_domain_failure:
  assumes "CVRPModel env n = Inl (CVRPException msg)"
  shows "events_of (run env (ModelSolveRunnable_init n)) w =
           [InvokeSetValue 0, InvokeSetLabelText ''Building model...'', CallCVRPModel] @
           message_box_events msg @ [BarClose] \<and>
         files (snd (run env (ModelSolveRunnable_init n) w)) = files w \<and>
         fst (run env (ModelSolveRunnable_init n) w) = Inr ()"
  using assms by (simp add: events_of_def run_defs io_defs message_box_events_def)

theorem run_build_domain_failure_witness:
  "CVRPModel env_build_fails () = Inl (CVRPException ''No vehicles'') \<and>
   events_of (run env_build_fails (ModelSolveRunnable_init ())) w0 =
     [InvokeSetValue 0, InvokeSetLabelText ''Building model...'', CallCVRPModel,
      NewMessageBox, MsgSetIcon Critical, MsgSetWindowTitle ''Error'',
      MsgSetText ''No vehicles'', MsgExec, BarClose] \<and>
   files (snd (run env_build_fails (ModelSolveRunnable_init ()) w0)) = Map.empty"
proof -
  have h: "CVRPModel env_build_fails () = Inl (CVRPException ''No vehicles'')"
    by (simp add: env_build_fails_def)
  show ?thesis
    using h run_build_domain_failure [OF h, of w0]
    by (simp add: message_box_events_def w0_def)
qed

section \<open>A job whose stage raises another exception\<close>

lemma run_build_fault:
  assumes "CVRPModel env (network self) = Inl (Fault f)"
  shows "run env self w = (Inl (Fault f), w\<lparr>trace := trace w @
           [InvokeSetValue (progress self), InvokeSetLabelText ''Building model...'',
            CallCVRPModel, BarClose]\<rparr>)"
  using assms by (simp add: run_defs io_defs)

lemma run_solve_fault:
  assumes "CVRPModel env (network self) = Inr model"
    and "solve_model env model = Inl (Fault f)"
  shows "run env self w = (Inl (Fault f), w\<lparr>trace := trace w @
           [InvokeSetValue (progress self), InvokeSetLabelText ''Building model...'',
            CallCVRPModel, InvokeSetValue 1, InvokeSetLabelText ''Searching for a solution...'',
            CallSolveModel, BarClose]\<rparr>)"
  using assms by (simp add: run_defs io_defs)

lemma run_render_fault:
  assumes "CVRPModel env (network self) = Inr model"
    and "solve_model env model = Inr result"
    and "generate_report env model result = Inl (Fault f)"
  shows "run env self w = (Inl (Fault f), w\<lparr>trace := trace w @
           [InvokeSetValue (progress self), InvokeSetLabelText ''Building model...'',
            CallCVRPModel, InvokeSetValue 1, InvokeSetLabelText ''Searching for a solution...'',
            CallSolveModel, InvokeSetValue 2, InvokeSetLabelText ''Generating report...'',
            CallGenerateReport, BarClose]\<rparr>)"
  using assms by (simp add: run_defs io_defs)

text \<open>
  Claim C3, as the program has it. When a pipeline stage raises an exception that is not
  a \<^verbatim>\<open>CVRPException\<close>, \<open>run\<close> closes the progress bar exactly once, as its last
  call, shows no message box and changes no file; the \<^verbatim>\<open>except\<close> clause does not
  match, so after the \<^verbatim>\<open>finally\<close> block the exception leaves \<open>run\<close>.
\<close>

theorem run_stage_fault:
  assumes "stage_raises env (network self) (Fault f)"
  shows "count_list (events_of (run env self) w) BarClose = 1 \<and>
         last (events_of (run env self) w) = BarClose \<and>
         MsgExec \<notin> set (events_of (run env self) w) \<and>
         files (snd (run env self w)) = files w \<and>
         fst (run env self w) = Inl (Fault f)"
proof (cases "CVRPModel env (network self)")
  case (Inl e)
  with assms have "CVRPModel env (network self) = Inl (Fault f)"
    by (simp add: stage_raises_def)
  from run_build_fault [OF this] show ?thesis by (simp add: events_of_def)
next
  case build: (Inr model)
  show ?thesis
  proof (cases "solve_model env model")
    case (Inl e)
    with assms build have "solve_model env model = Inl (Fault f)"
      by (simp add: stage_raises_def)
    from run_solve_fault [OF build this] show ?thesis by (simp add: events_of_def)
  next
    case solve: (Inr result)
    with assms build have "generate_report env model result = Inl (Fault f)"
      by (simp add: stage_raises_def)
    from run_render_fault [OF build solve this] show ?thesis by (simp add: events_of_def)
  qed
qed

theorem run_stage_fault_witness:
  "stage_raises env_render_fault (network (ModelSolveRunnable_init ()))
     (Fault (OtherError ''RuntimeError'')) \<and>
   count_list (events_of (run env_render_fault (ModelSolveRunnable_init ())) w0) BarClose = 1 \<and>
   fst (run env_render_fault (ModelSolveRunnable_init ()) w0) =
     Inl (Fault (OtherError ''RuntimeError''))"
proof -
  have h: "stage_raises env_render_fault (network (ModelSolveRunnable_init ()))
     (Fault (OtherError ''RuntimeError''))"
    by (simp add: stage_raises_def env_render_fault_def env0_def)
  show ?thesis
    using h run_stage_fault [OF h, of w0] by simp
qed

text \<open>
  The renderer raises a \<^verbatim>\<open>RuntimeError\<close> and \<open>run\<close> does not return: the
  \<^verbatim>\<open>RuntimeError\<close> comes out of it.
\<close>

theorem run_render_fault_escapes:
  "generate_report env_render_fault () () = Inl (Fault (OtherError ''RuntimeError'')) \<and>
   fst (run env_render_fault (ModelSolveRunnable_init ()) w0) \<noteq> Inr () \<and>
   fst (run env_render_fault (ModelSolveRunnable_init ()) w0) =
     Inl (Fault (OtherError ''RuntimeError''))"
  by (simp add: env_render_fault_def env0_def run_defs io_defs)

section \<open>The report file\<close>

text \<open>
  A timestamp is printed digit by digit; the file names are compared as Python compares
  strings, character by character.
\<close>

lemma of_char_digit: "(of_char (digit n) :: nat) = 48 + n mod 10"
proof -
  have "n mod 10 < 10" by simp
  then have "48 + n mod 10 < 256" by linarith
  then show ?thesis by (simp add: digit_def)
qed

lemma digit_less: "digit a < digit b \<longleftrightarrow> a mod 10 < b mod 10"
proof -
  have "digit a < digit b \<longleftrightarrow> (of_char (digit a) :: nat) < of_char (digit b)"
    by (rule less_char_def)
  then show ?thesis by (simp only: of_char_digit nat_add_left_cancel_less)
qed

lemma digit_eq: "digit a = digit b \<longleftrightarrow> a mod 10 = b mod 10"
proof
  assume "digit a = digit b"
  then have "(of_char (digit a) :: nat) = of_char (digit b)" by simp
  then show "a mod 10 = b mod 10" by (simp only: of_char_digit add_left_cancel)
next
  assume "a mod 10 = b mod 10"
  then show "digit a = digit b" by (simp add: digit_def)
qed

lemma lex_by_base:
  fixes m n b :: nat
  shows "(m div b < n div b \<or> (m div b = n div b \<and> (m mod b < n mod b \<or>
           (m mod b = n mod b \<and> P)))) \<longleftrightarrow> m < n \<or> (m = n \<and> P)"
proof -
  consider (lt) "m div b < n div b" | (eq) "m div b = n div b" | (gt) "n div b < m div b"
    by linarith
  then show ?thesis
  proof cases
    case lt
    have "m < n"
    proof (rule ccontr)
      assume "\<not> m < n"
      then have "n div b \<le> m div b" by (simp add: div_le_mono)
      with lt show False by simp
    qed
    with lt show ?thesis by simp
  next
    case gt
    have "n < m"
    proof (rule ccontr)
      assume "\<not> n < m"
      then have "m div b \<le> n div b" by (simp add: div_le_mono)
      with gt show False by simp
    qed
    with gt show ?thesis by auto
  next
    case eq
    have m: "b * (m div b) + m mod b = m" by simp
    have "b * (n div b) + n mod b = n" by simp
    then have n: "b * (m div b) + n mod b = n" by (simp only: eq)
    have "m < n \<longleftrightarrow> m mod b < n mod b"
      using m n by linarith
    moreover have "m = n \<longleftrightarrow> m mod b = n mod b"
      using m n by linarith
    ultimately show ?thesis using eq by simp
  qed
qed

lemma pad2_less:
  assumes "m < 100" and "n < 100"
  shows "pad2 m @ xs < pad2 n @ ys \<longleftrightarrow> m < n \<or> (m = n \<and> xs < ys)"
proof -
  have m: "m div 10 mod 10 = m div 10" using assms by simp
  have n: "n div 10 mod 10 = n div 10" using assms by simp
  have "pad2 m @ xs < pad2 n @ ys \<longleftrightarrow>
      m div 10 < n div 10 \<or> (m div 10 = n div 10 \<and>
        (m mod 10 < n mod 10 \<or> (m mod 10 = n mod 10 \<and> xs < ys)))"
    by (simp add: pad2_def digit_less digit_eq m n)
  then show ?thesis by (simp only: lex_by_base)
qed

lemma pad4_pad2: "pad4 m = pad2 (m div 100) @ pad2 (m mod 100)"
proof -
  have e: "m mod 100 = 10 * (m div 10 mod 10) + m mod 10"
    using mod_mult2_eq [of m 10 10] by simp
  have "m div 100 div 10 = m div 1000" by (simp add: div_mult2_eq [symmetric])
  moreover have "m mod 100 div 10 mod 10 = m div 10 mod 10" by (simp add: e)
  moreover have "m mod 100 mod 10 = m mod 10" by (simp add: e)
  ultimately show ?thesis by (simp add: pad4_def pad2_def digit_def)
qed

lemma pad4_less:
  assumes "m < 10000" and "n < 10000"
  shows "pad4 m @ xs < pad4 n @ ys \<longleftrightarrow> m < n \<or> (m = n \<and> xs < ys)"
proof -
  have "m div 100 < 100" "n div 100 < 100" using assms by simp_all
  moreover have "m mod 100 < 100" "n mod 100 < 100" by simp_all
  ultimately have "pad4 m @ xs < pad4 n @ ys \<longleftrightarrow>
      m div 100 < n div 100 \<or> (m div 100 = n div 100 \<and>
        (m mod 100 < n mod 100 \<or> (m mod 100 = n mod 100 \<and> xs < ys)))"
    by (simp add: pad4_pad2 pad2_less)
  then show ?thesis by (simp only: lex_by_base)
qed

lemma strftime_stamp:
  "strftime t ''%Y-%m-%d_%H.%M.%S'' =
     pad4 (year t) @ ''-'' @ pad2 (month t) @ ''-'' @ pad2 (day t) @ ''_'' @
     pad2 (hour t) @ ''.'' @ pad2 (minute t) @ ''.'' @ pad2 (second t)"
  by (simp add: directive_def)

lemma length_report_file_name: "length (report_file_name t) = 31"
  unfolding report_file_name_def strftime_stamp by (simp add: pad2_def pad4_def)

lemma report_file_name_less:
  assumes "valid_datetime a" and "valid_datetime b"
  shows "report_file_name a < report_file_name b \<longleftrightarrow> earlier a b"
proof -
  have a: "year a < 10000" "month a < 100" "day a < 100" "hour a < 100" "minute a < 100"
    "second a < 100"
    using assms(1) by (simp_all add: valid_datetime_def)
  have b: "year b < 10000" "month b < 100" "day b < 100" "hour b < 100" "minute b < 100"
    "second b < 100"
    using assms(2) by (simp_all add: valid_datetime_def)
  show ?thesis
    unfolding report_file_name_def strftime_stamp earlier_def
    by (simp add: pad4_less pad2_less a b)
qed

text \<open>
  Claim C7. In a job where the three stages, the opening, writing and closing of the file
  and the browser all succeed, \<open>run\<close> returns; it opens one path with mode
  \<^verbatim>\<open>"w"\<close>, writes the rendered report to it and closes it, and afterwards the file
  at that path holds exactly the report, whatever it held before. The path is the home
  directory (\<^verbatim>\<open>expanduser("~")\<close>) joined with
  \<^verbatim>\<open>report-YYYY-mm-dd_HH.MM.SS.html\<close>, printed from the current time. That name
  always has 31 characters, and for any two timestamps the names are in the same order as
  the times.
\<close>

theorem run_success_artifact:
  assumes "CVRPModel env n = Inr model"
    and "solve_model env model = Inr result"
    and "generate_report env model result = Inr report"
    and "open_error env (abs_file_path env) = None"
    and "write_error env (abs_file_path env) report = None"
    and "close_error env (abs_file_path env) = None"
    and "webbrowser_error env (abs_file_path env) = None"
  shows "run env (ModelSolveRunnable_init n) w =
          (Inr (), w\<lparr>trace := trace w @
           [InvokeSetValue 0, InvokeSetLabelText ''Building model...'', CallCVRPModel,
            InvokeSetValue 1, InvokeSetLabelText ''Searching for a solution...'', CallSolveModel,
            InvokeSetValue 2, InvokeSetLabelText ''Generating report...'', CallGenerateReport,
            CallOpen (abs_file_path env) ''w'', CallWrite (abs_file_path env) report,
            CallClose (abs_file_path env), WebbrowserOpen (abs_file_path env), Msleep 500,
            BarClose],
            files := (files w)(abs_file_path env \<mapsto> report),
            buffers := (buffers w)(abs_file_path env := None)\<rparr>) \<and>
         abs_file_path env =
           path_join env (expanduser env ''~'')
             (''report-'' @ pad4 (year (now env)) @ ''-'' @ pad2 (month (now env)) @ ''-'' @
              pad2 (day (now env)) @ ''_'' @ pad2 (hour (now env)) @ ''.'' @
              pad2 (minute (now env)) @ ''.'' @ pad2 (second (now env)) @ ''.html'') \<and>
         length (report_file_name t) = 31 \<and>
         (valid_datetime a \<and> valid_datetime b \<longrightarrow>
            (report_file_name a < report_file_name b) = earlier a b)"
proof -
  have "run env (ModelSolveRunnable_init n) w =
          (Inr (), w\<lparr>trace := trace w @
           [InvokeSetValue 0, InvokeSetLabelText ''Building model...'', CallCVRPModel,
            InvokeSetValue 1, InvokeSetLabelText ''Searching for a solution...'', CallSolveModel,
            InvokeSetValue 2, InvokeSetLabelText ''Generating report...'', CallGenerateReport,
            CallOpen (abs_file_path env) ''w'', CallWrite (abs_file_path env) report,
            CallClose (abs_file_path env), WebbrowserOpen (abs_file_path env), Msleep 500,
            BarClose],
            files := (files w)(abs_file_path env \<mapsto> report),
            buffers := (buffers w)(abs_file_path env := None)\<rparr>)"
    using assms by (simp add: run_defs io_defs flushed_def)
  moreover have "abs_file_path env =
           path_join env (expanduser env ''~'')
             (''report-'' @ pad4 (year (now env)) @ ''-'' @ pad2 (month (now env)) @ ''-'' @
              pad2 (day (now env)) @ ''_'' @ pad2 (hour (now env)) @ ''.'' @
              pad2 (minute (now env)) @ ''.'' @ pad2 (second (now env)) @ ''.html'')"
    unfolding abs_file_path_def report_file_name_def strftime_stamp by simp
  ultimately show ?thesis
    using length_report_file_name report_file_name_less by blast
qed

theorem run_success_artifact_witness:
  "CVRPModel env0 () = Inr () \<and> solve_model env0 () = Inr () \<and>
   generate_report env0 () () = Inr ''<html></html>'' \<and>
   open_error env0 (abs_file_path env0) = None \<and>
   write_error env0 (abs_file_path env0) ''<html></html>'' = None \<and>
   close_error env0 (abs_file_path env0) = None \<and>
   webbrowser_error env0 (abs_file_path env0) = None \<and>
   valid_datetime (now env0) \<and> valid_datetime ((now env0)\<lparr>second := 31\<rparr>) \<and>
   run env0 (ModelSolveRunnable_init ()) w0 =
     (Inr (), \<lparr>trace =
        [InvokeSetValue 0, InvokeSetLabelText ''Building model...'', CallCVRPModel,
         InvokeSetValue 1, InvokeSetLabelText ''Searching for a solution...'', CallSolveModel,
         InvokeSetValue 2, InvokeSetLabelText ''Generating report...'', CallGenerateReport,
         CallOpen ''/home/user/report-2026-11-03_10.20.30.html'' ''w'',
         CallWrite ''/home/user/report-2026-11-03_10.20.30.html'' ''<html></html>'',
         CallClose ''/home/user/report-2026-11-03_10.20.30.html'',
         WebbrowserOpen ''/home/user/report-2026-11-03_10.20.30.html'', Msleep 500, BarClose],
       files = [''/home/user/report-2026-11-03_10.20.30.html'' \<mapsto> ''<html></html>''],
       buffers = Map.empty, solve_disabled = False\<rparr>) \<and>
   report_file_name (now env0) < report_file_name ((now env0)\<lparr>second := 31\<rparr>)"
proof -
  have h: "CVRPModel env0 () = Inr ()" "solve_model env0 () = Inr ()"
    "generate_report env0 () () = Inr ''<html></html>''"
    "open_error env0 (abs_file_path env0) = None"
    "write_error env0 (abs_file_path env0) ''<html></html>'' = None"
    "close_error env0 (abs_file_path env0) = None"
    "webbrowser_error env0 (abs_file_path env0) = None"
    by (simp_all add: env0_fields)
  have v: "valid_datetime (now env0)" "valid_datetime ((now env0)\<lparr>second := 31\<rparr>)"
    by (simp_all add: valid_datetime_def env0_def)
  have e: "earlier (now env0) ((now env0)\<lparr>second := 31\<rparr>)"
    by (simp add: earlier_def env0_def)
  show ?thesis
    using h v e
      run_success_artifact [OF h, where w = w0 and a = "now env0"
        and b = "(now env0)\<lparr>second := 31\<rparr>"]
    by (simp add: abs_file_path_env0 w0_def)
qed

section \<open>The solve button\<close>

text \<open>
  Claim C6. When \<^verbatim>\<open>check_solvability\<close> raises a \<^verbatim>\<open>CVRPException\<close>, the
  handler disables the button, calls the check, shows one message box with the exception's
  message and enables the button again, and does nothing else: no progress dialog is
  created and nothing is handed to the thread pool.
\<close>

theorem solve_validation_failure:
  assumes "check_solvability env n = Inl (CVRPException msg)"
  shows "events_of (on_click_solve env n) w =
           [SolveSetDisabled True, CallCheckSolvability] @ message_box_events msg @
           [SolveSetDisabled False]"
  using assms by (simp add: events_of_def solve_defs io_defs message_box_events_def)

theorem solve_validation_failure_witness:
  "check_solvability env_unsolvable () = Inl (CVRPException ''No clients'') \<and>
   events_of (on_click_solve env_unsolvable ()) w0 =
     [SolveSetDisabled True, CallCheckSolvability, NewMessageBox, MsgSetIcon Critical,
      MsgSetWindowTitle ''Error'', MsgSetText ''No clients'', MsgExec, SolveSetDisabled False]"
proof -
  have h: "check_solvability env_unsolvable () = Inl (CVRPException ''No clients'')"
    by (simp add: env_unsolvable_def)
  show ?thesis
    using h solve_validation_failure [OF h, of w0] by (simp add: message_box_events_def)
qed

text \<open>
  Claim C9. Whether \<^verbatim>\<open>check_solvability\<close> returns or raises a
  \<^verbatim>\<open>CVRPException\<close>, the first call of the handler disables the button, its last
  call enables it, the button is enabled when the handler returns, and the handler does
  return. When the check returns, the job is handed to the thread pool and the very next
  call enables the button: the handler does not run the job or wait for it.
\<close>

theorem solve_reenables:
  assumes "check_solvability env n = Inr () \<or> check_solvability env n = Inl (CVRPException msg)"
  shows "hd (events_of (on_click_solve env n) w) = SolveSetDisabled True \<and>
         last (events_of (on_click_solve env n) w) = SolveSetDisabled False \<and>
         solve_disabled (snd (on_click_solve env n w)) = False \<and>
         fst (on_click_solve env n w) = Inr () \<and>
         (check_solvability env n = Inr () \<longrightarrow>
            events_of (on_click_solve env n) w =
              [SolveSetDisabled True, CallCheckSolvability,
               NewProgressDialog [] ''Cancel'' 0 3, DialogSetWindowTitle ''Solving Problem'',
               DialogSetWindowModality WindowModal, DialogShow,
               ThreadPoolStart (ModelSolveRunnable_init n), SolveSetDisabled False])"
  using assms by (auto simp add: events_of_def solve_defs io_defs)

theorem solve_reenables_witness:
  "check_solvability env0 () = Inr () \<and>
   on_click_solve env0 () (w0\<lparr>solve_disabled := True\<rparr>) =
     (Inr (), \<lparr>trace =
        [SolveSetDisabled True, CallCheckSolvability,
         NewProgressDialog [] ''Cancel'' 0 3, DialogSetWindowTitle ''Solving Problem'',
         DialogSetWindowModality WindowModal, DialogShow,
         ThreadPoolStart \<lparr>network = (), progress = 0\<rparr>, SolveSetDisabled False],
       files = Map.empty, buffers = Map.empty, solve_disabled = False\<rparr>) \<and>
   check_solvability env_unsolvable () = Inl (CVRPException ''No clients'') \<and>
   fst (on_click_solve env_unsolvable () w0) = Inr () \<and>
   \<not> solve_disabled (snd (on_click_solve env_unsolvable () w0))"
proof -
  have h: "check_solvability env0 () = Inr ()"
    "check_solvability env_unsolvable () = Inl (CVRPException ''No clients'')"
    by (simp_all add: env0_fields env_unsolvable_def)
  have "on_click_solve env0 () (w0\<lparr>solve_disabled := True\<rparr>) =
     (Inr (), \<lparr>trace =
        [SolveSetDisabled True, CallCheckSolvability,
         NewProgressDialog [] ''Cancel'' 0 3, DialogSetWindowTitle ''Solving Problem'',
         DialogSetWindowModality WindowModal, DialogShow,
         ThreadPoolStart \<lparr>network = (), progress = 0\<rparr>, SolveSetDisabled False],
       files = Map.empty, buffers = Map.empty, solve_disabled = False\<rparr>)"
    by (simp add: solve_defs io_defs env0_fields w0_def ModelSolveRunnable_init_def)
  then show ?thesis
    using h solve_reenables [where env = env_unsolvable and n = "()" and w = w0
        and msg = "''No clients''"]
    by simp
qed

text \<open>
  The rest of the session. A job never calls the button; a click on the disabled button
  does nothing; so once the button is disabled no action of the session enables it.
\<close>

lemma only_emits_job: "only_emits (- range SolveSetDisabled) (run env self)"
proof -
  have "only_emits (- range SolveSetDisabled)
     (try_except_CVRPException (run_body env self) (\<lambda>message. message_box message))"
    by (rule only_emits_mono [OF only_emits_run_inner]) auto
  then show ?thesis
    unfolding run_def by (intro only_emits_try_finally only_emits_emit) auto
qed

lemma step_keeps_disabled:
  assumes "solve_disabled w" and "step a w = (r, w1)"
  shows "solve_disabled w1 \<and> (\<exists>t. trace w1 = trace w @ t \<and> SolveSetDisabled False \<notin> set t)"
proof (cases a)
  case (ClickSolve env n)
  with assms show ?thesis by (simp add: click_solve_def)
next
  case (RunJob env self)
  with assms(2) have "run env self w = (r, w1)" by simp
  with only_emits_job [of env self] obtain t where "trace w1 = trace w @ t"
    "set t \<subseteq> - range SolveSetDisabled" "solve_disabled w1 = solve_disabled w"
    by (rule only_emits_run)
  with assms(1) show ?thesis by auto
qed

lemma session_keeps_disabled:
  "solve_disabled w \<Longrightarrow>
     solve_disabled (session abort acts w) \<and>
     (\<exists>t. trace (session abort acts w) = trace w @ t \<and> SolveSetDisabled False \<notin> set t)"
proof (induction acts arbitrary: w)
  case Nil
  then show ?case by simp
next
  case (Cons a acts)
  obtain r w1 where a: "step a w = (r, w1)" by (cases "step a w")
  from step_keeps_disabled [OF Cons.prems a]
  obtain t1 where w1: "solve_disabled w1" "trace w1 = trace w @ t1"
    "SolveSetDisabled False \<notin> set t1"
    by blast
  show ?case
  proof (cases "abort \<and> isl r")
    case True
    with a w1 show ?thesis by auto
  next
    case False
    from Cons.IH [OF w1(1)] obtain t2 where
      "solve_disabled (session abort acts w1)"
      "trace (session abort acts w1) = trace w1 @ t2" "SolveSetDisabled False \<notin> set t2"
      by blast
    with a w1 False show ?thesis by auto
  qed
qed

text \<open>
  Claim C10. When the guarded block of the handler raises an exception that is not a
  \<^verbatim>\<open>CVRPException\<close> (the block starts after the button was disabled; its only
  collaborator is \<^verbatim>\<open>check_solvability\<close>), the handler raises that exception, never
  calls \<^verbatim>\<open>setDisabled(False)\<close>, and leaves the button disabled. It stays disabled
  for the rest of the session: whatever clicks and jobs follow, whatever the collaborators
  do then, and whether the host ends the program at an escaped exception or carries on,
  the button is disabled afterwards and \<^verbatim>\<open>setDisabled(False)\<close> is never called.
  \<^verbatim>\<open>launch_ui\<close> does not change the state of the button either.
\<close>

theorem solve_fault_leaves_disabled:
  assumes "fst (on_click_solve_body env n (snd (solve_setDisabled True w))) = Inl (Fault f)"
  shows "fst (on_click_solve env n w) = Inl (Fault f) \<and>
         SolveSetDisabled False \<notin> set (events_of (on_click_solve env n) w) \<and>
         solve_disabled (snd (on_click_solve env n w)) = True \<and>
         solve_disabled (session abort acts (snd (on_click_solve env n w))) = True \<and>
         SolveSetDisabled False \<notin>
           set (drop (length (trace w))
                 (trace (session abort acts (snd (on_click_solve env n w))))) \<and>
         solve_disabled (snd (launch_ui env' arg w')) = solve_disabled w'"
proof -
  let ?w1 = "snd (on_click_solve env n w)"
  have now: "fst (on_click_solve env n w) = Inl (Fault f) \<and>
         SolveSetDisabled False \<notin> set (events_of (on_click_solve env n) w) \<and>
         solve_disabled ?w1 = True"
    using assms
    by (auto simp add: events_of_def solve_defs io_defs split: sum.splits exn.splits)
  then have "solve_disabled ?w1" by simp
  from session_keeps_disabled [OF this, of abort acts]
  obtain t where later: "solve_disabled (session abort acts ?w1)"
    "trace (session abort acts ?w1) = trace ?w1 @ t" "SolveSetDisabled False \<notin> set t"
    by blast
  have "trace ?w1 = trace w @ events_of (on_click_solve env n) w"
    using assms
    by (auto simp add: events_of_def solve_defs io_defs split: sum.splits exn.splits)
  with later(2) have "drop (length (trace w)) (trace (session abort acts ?w1)) =
      events_of (on_click_solve env n) w @ t"
    by simp
  moreover have "solve_disabled (snd (launch_ui env' arg w')) = solve_disabled w'"
    by (auto simp add: launch_ui_def try_except_EnvironmentError_def io_defs
        split: sum.splits exn.splits fault.splits)
  ultimately show ?thesis using now later by simp
qed

theorem solve_fault_leaves_disabled_witness:
  "fst (on_click_solve_body env_check_fault () (snd (solve_setDisabled True w0))) =
     Inl (Fault (OtherError ''AttributeError'')) \<and>
   fst (on_click_solve env_check_fault () w0) = Inl (Fault (OtherError ''AttributeError'')) \<and>
   events_of (on_click_solve env_check_fault ()) w0 =
     [SolveSetDisabled True, CallCheckSolvability] \<and>
   solve_disabled (snd (on_click_solve env_check_fault () w0)) \<and>
   solve_disabled (session False [ClickSolve env0 (), RunJob env0 (ModelSolveRunnable_init ()),
     ClickSolve env0 ()] (snd (on_click_solve env_check_fault () w0))) \<and>
   \<not> solve_disabled (session False [ClickSolve env0 ()] (snd (on_click_solve env0 () w0)))"
proof -
  have h: "fst (on_click_solve_body env_check_fault () (snd (solve_setDisabled True w0))) =
     Inl (Fault (OtherError ''AttributeError''))"
    by (simp add: env_check_fault_def solve_defs io_defs)
  have e: "events_of (on_click_solve env_check_fault ()) w0 =
     [SolveSetDisabled True, CallCheckSolvability]"
    by (simp add: env_check_fault_def events_of_def solve_defs io_defs w0_def)
  have c: "\<not> solve_disabled (session False [ClickSolve env0 ()] (snd (on_click_solve env0 () w0)))"
    by (simp add: click_solve_def solve_defs io_defs env0_fields w0_def)
  show ?thesis
    using h e c
      solve_fault_leaves_disabled [OF h, where abort = False and env' = env0
        and arg = None and w' = w0 and acts = "[ClickSolve env0 (), RunJob env0 (ModelSolveRunnable_init ()),
          ClickSolve env0 ()]"]
    by simp
qed

section \<open>Startup\<close>

text \<open>
  Claim C8. \<^verbatim>\<open>launch_ui\<close> calls \<^verbatim>\<open>get_solvers\<close> exactly once, whatever it
  does. When it raises \<^verbatim>\<open>EnvironmentError\<close> (no backend), the application and the
  main window have been constructed, one message box with the fixed text "No available
  solvers" is shown and \<^verbatim>\<open>launch_ui\<close> returns: the window is never shown and the
  event loop never runs. When it returns, the window is shown and the event loop runs, both
  after the check, and \<^verbatim>\<open>launch_ui\<close> ends in \<^verbatim>\<open>sys.exit\<close>. The handler is for
  \<^verbatim>\<open>EnvironmentError\<close>, not for the \<^verbatim>\<open>CVRPException\<close> of a job.
\<close>

theorem launch_ui_solver_check:
  "count_list (events_of (launch_ui env arg) w) CallGetSolvers = 1 \<and>
   (get_solvers env = Inl (Fault (EnvironmentError msg)) \<longrightarrow>
      launch_ui env arg w =
        (Inr (), w\<lparr>trace := trace w @
           [NewQApplication, NewMainWindow (case arg of None \<Rightarrow> new_Network env | Some n \<Rightarrow> n),
            CallGetSolvers] @ message_box_events ''No available solvers''\<rparr>)) \<and>
   (get_solvers env = Inr () \<longrightarrow>
      launch_ui env arg w =
        (Inl (Fault (SystemExit (app_exec env))), w\<lparr>trace := trace w @
           [NewQApplication, NewMainWindow (case arg of None \<Rightarrow> new_Network env | Some n \<Rightarrow> n),
            CallGetSolvers, MainShow, AppExec]\<rparr>))"
  by (auto simp add: events_of_def launch_ui_def try_except_EnvironmentError_def io_defs
      message_box_events_def split: sum.splits exn.splits fault.splits)

theorem launch_ui_solver_check_witness:
  "get_solvers env_no_solvers = Inl (Fault (EnvironmentError ''no solver'')) \<and>
   launch_ui env_no_solvers None w0 =
     (Inr (), \<lparr>trace =
        [NewQApplication, NewMainWindow (), CallGetSolvers, NewMessageBox, MsgSetIcon Critical,
         MsgSetWindowTitle ''Error'', MsgSetText ''No available solvers'', MsgExec],
       files = Map.empty, buffers = Map.empty, solve_disabled = False\<rparr>) \<and>
   get_solvers env0 = Inr () \<and>
   launch_ui env0 (Some ()) w0 =
     (Inl (Fault (SystemExit 0)), \<lparr>trace =
        [NewQApplication, NewMainWindow (), CallGetSolvers, MainShow, AppExec],
       files = Map.empty, buffers = Map.empty, solve_disabled = False\<rparr>)"
proof -
  have h: "get_solvers env_no_solvers = Inl (Fault (EnvironmentError ''no solver''))"
    "get_solvers env0 = Inr ()"
    by (simp_all add: env_no_solvers_def env0_fields)
  show ?thesis
    using h launch_ui_solver_check [of env_no_solvers None w0 "''no solver''"]
      launch_ui_solver_check [where env = env0 and arg = "Some ()" and w = w0]
    by (simp add: message_box_events_def w0_def env0_fields)
qed

section \<open>Removing the depot\<close>

text \<open>
  Claim C5. \<^verbatim>\<open>remove_client\<close> never changes the depot of a network, and on a
  network whose depot is not among its clients \<^verbatim>\<open>remove_client(depot)\<close> changes
  nothing. The network does not refuse the call; the places tab keeps it from being made:
  with an item selected, \<^verbatim>\<open>update_action_buttons\<close> leaves the Remove button
  disabled exactly when the item's place is the depot (with nothing selected both buttons
  are disabled), and \<^verbatim>\<open>on_item_remove\<close> passes the item's place to
  \<^verbatim>\<open>remove_client\<close> without looking at it.
\<close>

theorem depot_removal:
  "depot (remove_client n p) = depot n \<and>
   (depot_not_client n \<longrightarrow> remove_client n (depot n) = n) \<and>
   ab_remove_disabled (update_action_buttons self (Some item)) =
     (place item = depot (tab_network self)) \<and>
   ab_remove_disabled (update_action_buttons self None) = True \<and>
   tab_network (on_item_remove self item) = remove_client (tab_network self) (place item)"
  by (simp add: remove_client_def depot_not_client_def update_action_buttons_def
      ListTabWidget_update_action_buttons_def is_selected_item_valid_def on_item_remove_def
      on_editor_close_def update_places_def remove1_idem)

theorem depot_removal_witness:
  "depot_not_client net0 \<and> remove_client net0 (depot net0) = net0 \<and>
   ab_remove_disabled (update_action_buttons tab0 (Some (PlaceListItem_init 0))) \<and>
   \<not> ab_remove_disabled (update_action_buttons tab0 (Some (PlaceListItem_init 1))) \<and>
   tab_network (on_item_remove tab0 (PlaceListItem_init 0)) = net0 \<and>
   clients (tab_network (on_item_remove tab0 (PlaceListItem_init 1))) = [2]"
proof -
  have h: "depot_not_client net0"
    by (simp add: depot_not_client_def net0_def)
  show ?thesis
    using h depot_removal [of net0 0 tab0 "PlaceListItem_init 0"]
      depot_removal [of net0 0 tab0 "PlaceListItem_init 1"]
    by (simp add: tab0_def net0_def PlaceListItem_init_def remove_client_def)
qed

end
